theory Spec2Isabelle
  imports Complex_Main "HOL-Library.AList" "HOL-Library.Log_Nat"
begin

section \<open>Data model\<close>

text \<open>
  The hooks work on three kinds of segment (interfaces \<open>LiveSegment\<close>,
  \<open>AzureSpeakerSegment\<close> and \<open>CombinedSegment\<close>). Times are JavaScript numbers holding
  seconds; a time is the rational value of the double. Comparisons of times and the
  aggregate formulas are taken exactly; where the code computes new times, in the split of
  a segment, every operation is rounded as it is on doubles (\<open>fl\<close> below). An optional field (\<open>emotion?: string\<close>) is an \<open>option\<close>, \<open>None\<close> standing for
  \<open>undefined\<close>. The fields \<open>text\<close> and \<open>end\<close> of a combined segment are written
  \<open>seg_text\<close> and \<open>seg_end\<close>, and the fields of the other two interfaces that share a
  name with them carry a prefix.
\<close>

record LiveSegment =
  live_text :: string
  live_emotion :: "string option"
  live_sentiment :: "string option"
  timestamp :: rat

record AzureSpeakerSegment =
  speakerId :: string
  az_text :: string
  az_start :: rat
  az_end :: rat

record CombinedSegment =
  speaker :: string
  seg_text :: string
  emotion :: "string option"
  sentiment :: "string option"
  start :: rat
  seg_end :: rat

section \<open>Segment merger\<close>

text \<open>
  \<open>mergeSegments\<close> walks the transcript events in arrival order and, for each, takes the
  result of \<open>Array.prototype.find\<close> over the annotation pool with the predicate
  \<open>Math.abs(geminiSeg.timestamp - azureSegment.start) < 2\<close>.
\<close>

definition within_tolerance :: "AzureSpeakerSegment \<Rightarrow> LiveSegment \<Rightarrow> bool" where
  "within_tolerance azureSegment geminiSeg \<longleftrightarrow>
     \<bar>timestamp geminiSeg - az_start azureSegment\<bar> < 2"

definition matchingGemini :: "LiveSegment list \<Rightarrow> AzureSpeakerSegment \<Rightarrow> LiveSegment option" where
  "matchingGemini pool azureSegment = find (within_tolerance azureSegment) pool"

definition combine :: "LiveSegment list \<Rightarrow> AzureSpeakerSegment \<Rightarrow> CombinedSegment" where
  "combine pool azureSegment =
     \<lparr>speaker = speakerId azureSegment,
      seg_text = az_text azureSegment,
      emotion = (case matchingGemini pool azureSegment of None \<Rightarrow> None
                  | Some g \<Rightarrow> live_emotion g),
      sentiment = (case matchingGemini pool azureSegment of None \<Rightarrow> None
                  | Some g \<Rightarrow> live_sentiment g),
      start = az_start azureSegment,
      seg_end = az_end azureSegment\<rparr>"

definition combined :: "AzureSpeakerSegment list \<Rightarrow> LiveSegment list \<Rightarrow> CombinedSegment list" where
  "combined azureSegs geminiSegs = map (combine geminiSegs) azureSegs"

subsection \<open>Strings\<close>

text \<open>
  A JavaScript string is a sequence of UTF-16 code units. The model covers the code units
  below 256, one \<open>char\<close> each. On these, \<open>\s\<close> is tab, line feed, vertical tab, form
  feed, carriage return, space and no-break space; \<open>\w\<close> is \<open>[A-Za-z0-9_]\<close>; \<open>\d\<close> is
  \<open>[0-9]\<close>; \<open>toLowerCase\<close> shifts \<open>A-Z\<close> and the accented capitals of Latin-1.
\<close>

definition is_space :: "char \<Rightarrow> bool" where
  "is_space c \<longleftrightarrow> (of_char c :: nat) \<in> {9, 10, 11, 12, 13, 32, 160}"

definition is_digit :: "char \<Rightarrow> bool" where
  "is_digit c \<longleftrightarrow> 48 \<le> (of_char c :: nat) \<and> (of_char c :: nat) \<le> 57"

definition is_word_char :: "char \<Rightarrow> bool" where
  "is_word_char c \<longleftrightarrow>
     (let n = (of_char c :: nat)
      in (48 \<le> n \<and> n \<le> 57) \<or> (65 \<le> n \<and> n \<le> 90) \<or> n = 95 \<or> (97 \<le> n \<and> n \<le> 122))"

definition toLowerChar :: "char \<Rightarrow> char" where
  "toLowerChar c =
     (let n = (of_char c :: nat)
      in if (65 \<le> n \<and> n \<le> 90) \<or> (192 \<le> n \<and> n \<le> 222 \<and> n \<noteq> 215)
         then char_of (n + 32) else c)"

definition toLowerCase :: "string \<Rightarrow> string" where
  "toLowerCase s = map toLowerChar s"

definition trim :: "string \<Rightarrow> string" where
  "trim s = rev (dropWhile is_space (rev (dropWhile is_space s)))"

text \<open>\<open>xs.join(sep)\<close>.\<close>

fun join :: "string \<Rightarrow> string list \<Rightarrow> string" where
  "join sep [] = []"
| "join sep [x] = x"
| "join sep (x # y # ys) = x @ sep @ join sep (y # ys)"

text \<open>
  \<open>s.split(/\s+/)\<close>: the pieces between maximal runs of white space, the empty piece before
  a leading run and after a trailing one included. The flag says that the previous
  character was white space; \<open>cur\<close> is the current piece, reversed.
\<close>

fun splitLoop :: "bool \<Rightarrow> string \<Rightarrow> string \<Rightarrow> string list" where
  "splitLoop inRun cur [] = [rev cur]"
| "splitLoop inRun cur (c # cs) =
     (if is_space c
      then (if inRun then splitLoop True cur cs else rev cur # splitLoop True [] cs)
      else splitLoop False (c # cur) cs)"

definition splitWhitespace :: "string \<Rightarrow> string list" where
  "splitWhitespace s = splitLoop False [] s"

text \<open>\<open>s.includes(sub)\<close> (\<open>includes\<close> is a keyword of Isabelle).\<close>

fun includes_str :: "string \<Rightarrow> string \<Rightarrow> bool" where
  "includes_str [] sub \<longleftrightarrow> sub = []"
| "includes_str (c # cs) sub \<longleftrightarrow> take (length sub) (c # cs) = sub \<or> includes_str cs sub"

text \<open>Decimal rendering of an integer (\<open>Number.prototype.toString\<close> on an integral value).\<close>

fun digits :: "nat \<Rightarrow> string" where
  "digits n = (if n < 10 then [char_of (48 + n)] else digits (n div 10) @ [char_of (48 + n mod 10)])"

definition string_of_int :: "int \<Rightarrow> string" where
  "string_of_int i = (if i < 0 then CHR ''-'' # digits (nat (- i)) else digits (nat i))"

definition padStart2 :: "string \<Rightarrow> string" where
  "padStart2 s = replicate (2 - length s) (CHR ''0'') @ s"

text \<open>\<open>Math.floor\<close>, \<open>Math.round\<close> (halves go up) and the remainder \<open>%\<close> (sign of the dividend).\<close>

definition js_round :: "rat \<Rightarrow> int" where
  "js_round x = \<lfloor>x + 1 / 2\<rfloor>"

definition js_rem :: "rat \<Rightarrow> rat \<Rightarrow> rat" where
  "js_rem a b = a - b * of_int (if 0 \<le> a / b then \<lfloor>a / b\<rfloor> else \<lceil>a / b\<rceil>)"

definition formatTime :: "rat \<Rightarrow> string" where
  "formatTime seconds =
     (let mins = \<lfloor>seconds / 60\<rfloor>; secs = \<lfloor>js_rem seconds 60\<rfloor>
      in string_of_int mins @ '':'' @ padStart2 (string_of_int secs))"

subsection \<open>Arithmetic on doubles\<close>

text \<open>
  Where a claim is about the exact values that the code computes from times, the operations
  are those of IEEE 754 doubles: the exact result, rounded to the nearest double, a tie
  going to the even significand. \<open>fl\<close> is that rounding. For \<open>x \<noteq> 0\<close>, \<open>expo x\<close> is the
  exponent \<open>e\<close> with \<open>2 ^ e \<le> \<bar>x\<bar> < 2 ^ (e + 1)\<close>, found from the bit lengths of the
  numerator and the denominator; the spacing of the doubles around \<open>x\<close> is \<open>2 ^ (e - 52)\<close>,
  and \<open>2 ^ (- 1074)\<close> in the subnormal range. A result of magnitude \<open>2 ^ 1024\<close> or more,
  which the code turns into \<open>Infinity\<close>, is outside the model.
\<close>

definition expo :: "rat \<Rightarrow> int" where
  "expo x =
     (let e0 = bitlen \<bar>fst (quotient_of x)\<bar> - bitlen (snd (quotient_of x))
      in if power_int 2 e0 \<le> \<bar>x\<bar> then e0 else e0 - 1)"

definition ulp :: "rat \<Rightarrow> rat" where
  "ulp x = power_int 2 (max (expo x - 52) (- 1074))"

definition roundHalfEven :: "rat \<Rightarrow> int" where
  "roundHalfEven q =
     (let f = \<lfloor>q\<rfloor>; r = q - of_int f
      in if r < 1 / 2 then f else if 1 / 2 < r then f + 1 else if even f then f else f + 1)"

definition fl :: "rat \<Rightarrow> rat" where
  "fl x = (if x = 0 then 0 else of_int (roundHalfEven (x / ulp x)) * ulp x)"

subsection \<open>Session state, merge and per-fragment annotation\<close>

text \<open>
  The refs and state cells of the hook that the merger and the annotation handler touch.
  \<open>geminiModel\<close> says whether \<open>geminiModelRef.current\<close> is set.
\<close>

record session =
  geminiModel :: bool
  azureSegments :: "AzureSpeakerSegment list"
  geminiSegments :: "LiveSegment list"
  combinedTranscript :: "CombinedSegment list"
  transcript :: string
  realtimeFeedback :: "string list"

text \<open>A string is truthy when it is defined and not empty.\<close>

definition truthy :: "string option \<Rightarrow> bool" where
  "truthy v \<longleftrightarrow> (case v of None \<Rightarrow> False | Some s \<Rightarrow> s \<noteq> [])"

definition displayLine :: "CombinedSegment \<Rightarrow> string" where
  "displayLine seg =
     ''['' @ speaker seg @ ''] '' @ seg_text seg @ '' '' @
     (if truthy (emotion seg) then ''('' @ the (emotion seg) @ '')'' else [])"

definition mergeSegments :: "session \<Rightarrow> session" where
  "mergeSegments s =
     (let c = combined (azureSegments s) (geminiSegments s)
      in s\<lparr>combinedTranscript := c, transcript := join [CHR 0x0A] (map displayLine c)\<rparr>)"

text \<open>
  \<open>analyzeTextWithGemini\<close> awaits the language model and parses its reply. The two
  library calls are inputs of the model: the reply is \<open>Inl e\<close> when
  \<open>generateContent\<close> or \<open>response.text()\<close> throws, \<open>Inr (Inl e)\<close> when \<open>JSON.parse\<close> throws
  (or yields \<open>null\<close>, whose field access throws inside the same \<open>try\<close>), and
  \<open>Inr (Inr p)\<close> with the three fields read from the parsed object otherwise. The session
  is the one current when the reply is handled. An exception that left the function would
  be the result \<open>Inl e\<close>.
\<close>

datatype js_error = SyntaxError | TypeError | ApiError

record parsed_annotation =
  p_emotion :: "string option"
  p_sentiment :: "string option"
  p_feedback :: "string option"

type_synonym gemini_reply = "js_error + (js_error + parsed_annotation)"

definition pushGemini :: "session \<Rightarrow> string \<Rightarrow> string option \<Rightarrow> string option \<Rightarrow> rat \<Rightarrow> session" where
  "pushGemini s txt emo sen ts =
     s\<lparr>geminiSegments := geminiSegments s @
        [\<lparr>live_text = txt, live_emotion = emo, live_sentiment = sen, timestamp = ts\<rparr>]\<rparr>"

text \<open>The inner \<open>try\<close> block: parse, push, feed, merge.\<close>

definition storeParsed :: "session \<Rightarrow> string \<Rightarrow> rat \<Rightarrow> js_error + parsed_annotation \<Rightarrow> js_error + session" where
  "storeParsed s txt ts parsed =
     (case parsed of
        Inl e \<Rightarrow> Inl e
      | Inr p \<Rightarrow>
          (let s1 = pushGemini s txt (p_emotion p) (p_sentiment p) ts;
               s2 = (if truthy (p_feedback p)
                     then s1\<lparr>realtimeFeedback := take 5 (the (p_feedback p) # realtimeFeedback s1)\<rparr>
                     else s1)
           in Inr (mergeSegments s2)))"

definition analyzeTextWithGemini :: "session \<Rightarrow> string \<Rightarrow> rat \<Rightarrow> gemini_reply \<Rightarrow> js_error + session" where
  "analyzeTextWithGemini s txt ts reply =
     (if \<not> geminiModel s \<or> txt = [] \<or> length (trim txt) < 5 then Inr s
      else case reply of
          Inl apiError \<Rightarrow> Inr s
        | Inr parsed \<Rightarrow>
            (case storeParsed s txt ts parsed of
               Inr s' \<Rightarrow> Inr s'
             | Inl e \<Rightarrow> Inr (mergeSegments (pushGemini s txt None None ts))))"

section \<open>Metrics aggregator\<close>

text \<open>
  A quotient of two JavaScript numbers is finite, or \<open>Infinity\<close> when a positive number is
  divided by zero, or \<open>NaN\<close> for \<open>0 / 0\<close>. A word count is never negative, so
  \<open>-Infinity\<close> does not arise.
\<close>

datatype js_number = Finite rat | PosInfinity | NaN

definition sentimentScore :: "string option \<Rightarrow> int option" where
  "sentimentScore v =
     (if v = Some ''positive'' then Some 80
      else if v = Some ''neutral'' then Some 60
      else if v = Some ''negative'' then Some 40
      else None)"

definition wordCount :: "string \<Rightarrow> nat" where
  "wordCount txt = length (filter (\<lambda>word. length word > 0) (splitWhitespace txt))"

definition totalWords :: "CombinedSegment list \<Rightarrow> nat" where
  "totalWords segs = sum_list (map (\<lambda>seg. wordCount (seg_text seg)) segs)"

definition totalDuration :: "CombinedSegment list \<Rightarrow> rat" where
  "totalDuration segs = (if length segs > 0 then seg_end (last segs) else 60)"

definition wordsPerMinute :: "CombinedSegment list \<Rightarrow> js_number" where
  "wordsPerMinute segs =
     (if totalDuration segs = 0
      then (if totalWords segs = 0 then NaN else PosInfinity)
      else Finite (of_nat (totalWords segs) / totalDuration segs * 60))"

text \<open>
  \<open>engagementOf\<close> is the block after \<open>let engagement = 50\<close>. The comparison
  \<open>wordsPerMinute > 0\<close> is false on \<open>NaN\<close>; on \<open>Infinity\<close> the clamp
  \<open>Math.min(1, Math.max(0, \<dots>))\<close> gives 1.
\<close>

definition normalized :: "rat \<Rightarrow> rat" where
  "normalized wpm = min 1 (max 0 ((wpm - 80) / (200 - 80)))"

definition engagementOf :: "js_number \<Rightarrow> int" where
  "engagementOf wpm =
     (case wpm of
        NaN \<Rightarrow> 50
      | PosInfinity \<Rightarrow> js_round (20 + 1 * 75)
      | Finite w \<Rightarrow> (if w > 0 then js_round (20 + normalized w * 75) else 50))"

definition engagement :: "CombinedSegment list \<Rightarrow> int" where
  "engagement segs = engagementOf (wordsPerMinute segs)"

definition avgSentiment :: "CombinedSegment list \<Rightarrow> int" where
  "avgSentiment segs =
     (let scores = List.map_filter (\<lambda>seg. sentimentScore (sentiment seg)) segs
      in if length scores > 0 then js_round (of_int (sum_list scores) / of_nat (length scores))
         else 50)"

text \<open>
  \<open>speakerTime\<close> is a \<open>Map\<close>: an association list in insertion order, a key that is
  already there keeping its place.
\<close>

definition speakerTime :: "CombinedSegment list \<Rightarrow> (string \<times> rat) list" where
  "speakerTime segs =
     foldl (\<lambda>m seg. AList.update (speaker seg)
              ((case map_of m (speaker seg) of None \<Rightarrow> 0 | Some t \<Rightarrow> t) + (seg_end seg - start seg)) m)
       [] segs"

definition talkRatio :: "CombinedSegment list \<Rightarrow> string" where
  "talkRatio segs =
     (let speakers = speakerTime segs
      in if length speakers \<ge> 2
         then (let totalTime = sum_list (map snd speakers)
               in if totalTime > 0
                  then string_of_int (js_round (snd (speakers ! 0) / totalTime * 100)) @ '':'' @
                       string_of_int (js_round (snd (speakers ! 1) / totalTime * 100))
                  else ''50:50'')
         else ''50:50'')"

text \<open>
  The record that \<open>calculateMetrics\<close> returns, without its seven fields that are the same
  constant on every input (\<open>questionCount: "0"\<close> and the like).
\<close>

record metrics =
  talkToListenRatio :: string
  sentimentScoreAvg :: string
  engagementPercentage :: string

definition calculateMetrics :: "CombinedSegment list \<Rightarrow> metrics" where
  "calculateMetrics segs =
     \<lparr>talkToListenRatio = talkRatio segs,
      sentimentScoreAvg = string_of_int (avgSentiment segs),
      engagementPercentage = string_of_int (engagement segs)\<rparr>"

subsection \<open>Sentiment time series\<close>

record GraphPoint =
  pt_time :: string
  pt_sentiment :: int

text \<open>
  The loop of \<open>generateSentimentGraph\<close> carries \<open>points\<close>, \<open>cumulativeSentiment\<close> and
  \<open>segmentCount\<close>; \<open>graphStep i seg\<close> is its body at index \<open>i\<close>. Any sentiment that is
  truthy and neither \<open>positive\<close> nor \<open>neutral\<close> scores 40.
\<close>

record graph_state =
  points :: "GraphPoint list"
  cumulativeSentiment :: int
  segmentCount :: int

definition graphScore :: "string option \<Rightarrow> int" where
  "graphScore v = (if v = Some ''positive'' then 80 else if v = Some ''neutral'' then 60 else 40)"

definition graphStep :: "nat \<Rightarrow> CombinedSegment \<Rightarrow> graph_state \<Rightarrow> graph_state" where
  "graphStep i seg st =
     (if truthy (sentiment seg)
      then (let cum = cumulativeSentiment st + graphScore (sentiment seg);
                cnt = segmentCount st + 1;
                st1 = st\<lparr>cumulativeSentiment := cum, segmentCount := cnt\<rparr>
            in if i mod 2 = 0 \<or> length (points st) = 1
               then (let currentAvg = js_round (of_int cum / of_int cnt);
                         lastPoint = last (points st)
                     in if length (points st) = 1 \<or> \<bar>currentAvg - pt_sentiment lastPoint\<bar> > 10
                        then st1\<lparr>points := points st @
                               [\<lparr>pt_time = formatTime (start seg), pt_sentiment = currentAvg\<rparr>]\<rparr>
                        else st1)
               else st1)
      else st)"

fun graphLoop :: "nat \<Rightarrow> CombinedSegment list \<Rightarrow> graph_state \<Rightarrow> graph_state" where
  "graphLoop i [] st = st"
| "graphLoop i (seg # rest) st = graphLoop (Suc i) rest (graphStep i seg st)"

definition anchor :: GraphPoint where
  "anchor = \<lparr>pt_time = ''0:00'', pt_sentiment = 50\<rparr>"

definition graphInit :: graph_state where
  "graphInit = \<lparr>points = [anchor], cumulativeSentiment = 0, segmentCount = 0\<rparr>"

definition generateSentimentGraph :: "CombinedSegment list \<Rightarrow> GraphPoint list" where
  "generateSentimentGraph segs = points (graphLoop 0 segs graphInit)"

text \<open>
  The hook of \<open>src/hooks/useSalesCoach.tsx\<close> has an earlier \<open>generateSentimentGraph\<close>: it
  samples every third segment (\<open>i += 3\<close>) and pushes that segment's own score.
\<close>

fun generateSentimentGraph_sampled :: "CombinedSegment list \<Rightarrow> GraphPoint list" where
  "generateSentimentGraph_sampled [] = []"
| "generateSentimentGraph_sampled (seg # rest) =
     \<lparr>pt_time = formatTime (start seg), pt_sentiment = graphScore (sentiment seg)\<rparr>
       # generateSentimentGraph_sampled (drop 2 rest)"

section \<open>Speaker correction pass\<close>

text \<open>
  The parsed reply of the correction call: \<open>corrections\<close> and \<open>splits\<close>. An index is a
  JavaScript number; the model takes it as an integer, which may be negative or too large.
  A missing array behaves like an empty one (\<open>response.splits && response.splits.length > 0\<close>).
\<close>

record SplitPart =
  part_speaker :: string
  part_text :: string

record Split =
  originalIndex :: int
  segments :: "SplitPart list"

record Correction =
  corr_index :: int
  correctedSpeaker :: string

record CorrectionResponse =
  corrections :: "Correction list"
  splits :: "Split list"

text \<open>
  \<open>newSegments\<close>: part \<open>i\<close> of \<open>k\<close> gets the span from
  \<open>start + (i * timePerSegment)\<close> to \<open>start + ((i + 1) * timePerSegment)\<close>, where
  \<open>timePerSegment = duration / k\<close> and \<open>duration = end - start\<close>. Each of these operations is
  one on doubles, so each result is rounded; the indices \<open>i\<close>, \<open>i + 1\<close> and the length \<open>k\<close>
  are exact.
\<close>

definition newSegment :: "CombinedSegment \<Rightarrow> rat \<Rightarrow> nat \<times> SplitPart \<Rightarrow> CombinedSegment" where
  "newSegment originalSeg timePerSegment ip =
     \<lparr>speaker = part_speaker (snd ip),
      seg_text = part_text (snd ip),
      emotion = emotion originalSeg,
      sentiment = sentiment originalSeg,
      start = fl (start originalSeg + fl (of_nat (fst ip) * timePerSegment)),
      seg_end = fl (start originalSeg + fl ((of_nat (fst ip) + 1) * timePerSegment))\<rparr>"

definition newSegments :: "CombinedSegment \<Rightarrow> SplitPart list \<Rightarrow> CombinedSegment list" where
  "newSegments originalSeg parts =
     (let duration = fl (seg_end originalSeg - start originalSeg);
          timePerSegment = fl (duration / of_nat (length parts))
      in map (newSegment originalSeg timePerSegment) (enumerate 0 parts))"

text \<open>
  One split. When the index addresses no element, \<open>originalSeg\<close> is \<open>undefined\<close> and reading
  \<open>originalSeg.end\<close> throws a \<open>TypeError\<close>. Otherwise \<open>splice(index, 1, ...newSegments)\<close>
  replaces the one element. With no part at all the quotient \<open>duration / 0\<close> is never used,
  since the map over the parts is empty.
\<close>

definition applySplit :: "CombinedSegment list \<Rightarrow> Split \<Rightarrow> js_error + CombinedSegment list" where
  "applySplit correctedSegments split =
     (if 0 \<le> originalIndex split \<and> nat (originalIndex split) < length correctedSegments
      then (let idx = nat (originalIndex split);
                originalSeg = correctedSegments ! idx
            in Inr (take idx correctedSegments @ newSegments originalSeg (segments split) @
                    drop (Suc idx) correctedSegments))
      else Inl TypeError)"

fun applySplits :: "CombinedSegment list \<Rightarrow> Split list \<Rightarrow> js_error + CombinedSegment list" where
  "applySplits correctedSegments [] = Inr correctedSegments"
| "applySplits correctedSegments (split # rest) =
     (case applySplit correctedSegments split of
        Inl e \<Rightarrow> Inl e
      | Inr next \<Rightarrow> applySplits next rest)"

text \<open>
  \<open>sort((a, b) => b.originalIndex - a.originalIndex)\<close>: the sort of an array is stable, so
  it is the insertion sort on the negated index.
\<close>

definition sortSplits :: "Split list \<Rightarrow> Split list" where
  "sortSplits sps = sort_key (\<lambda>sp. - originalIndex sp) sps"

text \<open>
  The reassignments: \<open>correctedSegments.map((seg, idx) => \<dots>)\<close> looks for the first
  correction whose \<open>index\<close> equals the position \<open>idx\<close> in the array as it is then.
\<close>

definition applyCorrection :: "Correction list \<Rightarrow> nat \<times> CombinedSegment \<Rightarrow> CombinedSegment" where
  "applyCorrection cs iseg =
     (case find (\<lambda>c. corr_index c = int (fst iseg)) cs of
        Some correction \<Rightarrow> (snd iseg)\<lparr>speaker := correctedSpeaker correction\<rparr>
      | None \<Rightarrow> snd iseg)"

definition applyCorrections :: "Correction list \<Rightarrow> CombinedSegment list \<Rightarrow> CombinedSegment list" where
  "applyCorrections cs correctedSegments = map (applyCorrection cs) (enumerate 0 correctedSegments)"

text \<open>The fallback: a label that is neither role is classified once, at its first segment.\<close>

definition isRole :: "string \<Rightarrow> bool" where
  "isRole sp \<longleftrightarrow> sp = ''Salesperson'' \<or> sp = ''Customer''"

definition isLikelySalesperson :: "string \<Rightarrow> bool" where
  "isLikelySalesperson txt \<longleftrightarrow>
     includes_str (toLowerCase txt) ''can i'' \<or>
     includes_str (toLowerCase txt) ''let me'' \<or>
     includes_str (toLowerCase txt) ''our product'' \<or>
     includes_str (toLowerCase txt) ''we offer'' \<or>
     includes_str (toLowerCase txt) ''would you'' \<or>
     includes_str (toLowerCase txt) ''tell me about''"

definition speakerMapping :: "CombinedSegment list \<Rightarrow> (string \<times> string) list" where
  "speakerMapping correctedSegments =
     foldl (\<lambda>m seg.
        if isRole (speaker seg) then m
        else if map_of m (speaker seg) = None
        then AList.update (speaker seg)
               (if isLikelySalesperson (seg_text seg) then ''Salesperson'' else ''Customer'') m
        else m)
       [] correctedSegments"

definition mapRoles :: "CombinedSegment list \<Rightarrow> CombinedSegment list" where
  "mapRoles correctedSegments =
     map (\<lambda>seg. if isRole (speaker seg) then seg
               else seg\<lparr>speaker :=
                      (case map_of (speakerMapping correctedSegments) (speaker seg) of
                         Some role \<Rightarrow> role
                       | None \<Rightarrow> speaker seg)\<rparr>)
       correctedSegments"

text \<open>
  The body of the inner \<open>try\<close>: splits, then reassignments, then the fallback. An exception
  in it is caught and the input comes back unchanged.
\<close>

definition applyResponse :: "CombinedSegment list \<Rightarrow> CorrectionResponse \<Rightarrow> js_error + CombinedSegment list" where
  "applyResponse segs response =
     (case applySplits segs (sortSplits (splits response)) of
        Inl e \<Rightarrow> Inl e
      | Inr correctedSegments \<Rightarrow>
          Inr (mapRoles (applyCorrections (corrections response) correctedSegments)))"

type_synonym correction_reply = "js_error + (js_error + CorrectionResponse)"

definition correctSpeakerIdentification :: "CombinedSegment list \<Rightarrow> correction_reply \<Rightarrow> CombinedSegment list" where
  "correctSpeakerIdentification segs reply =
     (if length segs = 0 then segs
      else case reply of
          Inl apiError \<Rightarrow> segs
        | Inr (Inl parseError) \<Rightarrow> segs
        | Inr (Inr response) \<Rightarrow>
            (case applyResponse segs response of
               Inl e \<Rightarrow> segs
             | Inr result \<Rightarrow> result))"

definition span :: "CombinedSegment \<Rightarrow> rat" where
  "span seg = seg_end seg - start seg"

section \<open>Keyword extraction\<close>

definition stopWords :: "string list" where
  "stopWords =
    [''the'', ''a'', ''an'', ''and'', ''or'', ''but'', ''in'', ''on'', ''at'', ''to'',
     ''for'', ''of'', ''with'', ''is'', ''are'', ''was'', ''were'', ''be'', ''been'',
     ''being'', ''have'', ''has'', ''had'', ''do'', ''does'', ''did'', ''will'', ''would'',
     ''could'', ''should'', ''may'', ''might'', ''must'', ''can'', ''i'', ''you'', ''he'',
     ''she'', ''it'', ''we'', ''they'', ''them'', ''their'', ''this'', ''that'', ''these'',
     ''those'', ''am'', ''yes'', ''no'', ''not'', ''so'', ''if'', ''than'', ''as'', ''my'',
     ''your'', ''our'', ''me'', ''him'', ''her'', ''us'', ''what'', ''when'', ''where'',
     ''who'', ''why'', ''how'', ''all'', ''each'', ''every'', ''both'', ''few'', ''more'',
     ''most'', ''some'', ''such'', ''any'', ''very'', ''just'', ''about'', ''up'', ''out'',
     ''down'', ''there'', ''here'', ''now'', ''then'', ''well'', ''also'', ''too'',
     ''only'', ''even'', ''want'', ''need'', ''think'', ''know'', ''get'', ''got'',
     ''going'', ''go'', ''like'', ''really'', ''yeah'', ''okay'', ''ok'', ''um'', ''uh'',
     ''right'']"

definition fullText :: "CombinedSegment list \<Rightarrow> string" where
  "fullText segs = join '' '' (map seg_text segs)"

text \<open>\<open>replace(/[^\w\s]/g, ' ')\<close> and the test \<open>/^\d+$/\<close>.\<close>

definition stripPunctuation :: "string \<Rightarrow> string" where
  "stripPunctuation s = map (\<lambda>c. if is_word_char c \<or> is_space c then c else CHR '' '') s"

definition isNumeric :: "string \<Rightarrow> bool" where
  "isNumeric word \<longleftrightarrow> word \<noteq> [] \<and> list_all is_digit word"

definition tokens :: "CombinedSegment list \<Rightarrow> string list" where
  "tokens segs = splitWhitespace (stripPunctuation (toLowerCase (fullText segs)))"

definition keep :: "string \<Rightarrow> bool" where
  "keep word \<longleftrightarrow> length word \<ge> 2 \<and> word \<notin> set stopWords \<and> \<not> isNumeric word"

definition keywordWords :: "CombinedSegment list \<Rightarrow> string list" where
  "keywordWords segs = filter keep (tokens segs)"

text \<open>
  The counter \<open>keywords\<close> is an object literal \<open>{}\<close>, so a read \<open>keywords[word]\<close> of a key
  that the object does not own goes to \<open>Object.prototype\<close>. Two of its property names can
  be tokens, which are lower-case words over \<open>[a-z0-9_]\<close>:
  \<^item> \<open>constructor\<close> reads as the function \<open>Object\<close>, which is truthy, so
    \<open>(keywords[word] || 0) + 1\<close> is a string (the function's source text followed by
    \<open>1\<close>); the assignment stores it as an own property, and every later \<open>+ 1\<close> appends to
    the string;
  \<^item> \<open>__proto__\<close> reads as \<open>Object.prototype\<close> itself, and the assignment of the
    resulting string goes to the inherited setter, which ignores a value that is not an
    object: no own property appears.
  Every other token that the object does not own reads as \<open>undefined\<close> and starts at 1.
  \<open>Text\<close> stands for a stored string of that kind, whose conversion to a number is
  \<open>NaN\<close>. The own properties are kept in insertion order, as \<open>Object.entries\<close> lists
  them (no key is an array index, numeric tokens having been filtered out).
\<close>

datatype kw_value = Count nat | Text

definition countWord :: "(string \<times> kw_value) list \<Rightarrow> string \<Rightarrow> (string \<times> kw_value) list" where
  "countWord keywords word =
     (if word = ''__proto__'' then keywords
      else AList.update word
             (case map_of keywords word of
                Some (Count n) \<Rightarrow> Count (n + 1)
              | Some Text \<Rightarrow> Text
              | None \<Rightarrow> (if word = ''constructor'' then Text else Count 1))
             keywords)"

definition countWords :: "string list \<Rightarrow> (string \<times> kw_value) list" where
  "countWords ws = foldl countWord [] ws"

text \<open>
  \<open>.filter(([, count]) => count >= 2)\<close>: the comparison is false on a string that converts
  to \<open>NaN\<close>. What is left are numbers; the stable sort orders them by \<open>b - a\<close>, and
  \<open>slice(0, 30)\<close> keeps the first thirty.
\<close>

fun atLeastTwo :: "(string \<times> kw_value) list \<Rightarrow> (string \<times> nat) list" where
  "atLeastTwo [] = []"
| "atLeastTwo ((word, Count n) # rest) =
     (if n \<ge> 2 then (word, n) # atLeastTwo rest else atLeastTwo rest)"
| "atLeastTwo ((word, Text) # rest) = atLeastTwo rest"

definition sortedKeywords :: "(string \<times> kw_value) list \<Rightarrow> (string \<times> nat) list" where
  "sortedKeywords keywords = take 30 (sort_key (\<lambda>e. - int (snd e)) (atLeastTwo keywords))"

definition extractKeywords :: "CombinedSegment list \<Rightarrow> (string \<times> nat) list" where
  "extractKeywords segs = sortedKeywords (countWords (keywordWords segs))"

subsection \<open>Notions used to state the properties\<close>

text \<open>
  The sentiment-bearing segments of a sequence and the rounded running average over them,
  which is what the loop of \<open>generateSentimentGraph\<close> holds in \<open>currentAvg\<close>.
\<close>

definition bearing :: "CombinedSegment list \<Rightarrow> CombinedSegment list" where
  "bearing segs = filter (\<lambda>seg. truthy (sentiment seg)) segs"

definition runningAverage :: "CombinedSegment list \<Rightarrow> int" where
  "runningAverage segs =
     js_round (of_int (sum_list (map (\<lambda>seg. graphScore (sentiment seg)) (bearing segs))) /
               of_int (int (length (bearing segs))))"

text \<open>A words-per-minute value is positive when it is a positive number or \<open>Infinity\<close>.\<close>

definition positive :: "js_number \<Rightarrow> bool" where
  "positive x \<longleftrightarrow> (case x of Finite w \<Rightarrow> 0 < w | PosInfinity \<Rightarrow> True | NaN \<Rightarrow> False)"

text \<open>
  For a split: the segment that it addresses and the new segments that replace it; the
  boundary \<open>j\<close> of the exact division of a segment's span into \<open>k\<close> equal parts; and a bound
  on what the rounding of the four operations behind a boundary can add up to.
\<close>

definition splitTarget :: "CombinedSegment list \<Rightarrow> Split \<Rightarrow> CombinedSegment" where
  "splitTarget segs sp = segs ! nat (originalIndex sp)"

definition splitParts :: "CombinedSegment list \<Rightarrow> Split \<Rightarrow> CombinedSegment list" where
  "splitParts segs sp = newSegments (splitTarget segs sp) (segments sp)"

definition idealBoundary :: "CombinedSegment \<Rightarrow> nat \<Rightarrow> nat \<Rightarrow> rat" where
  "idealBoundary orig k j = start orig + of_nat j * (span orig / of_nat k)"

definition roundingSlack :: "CombinedSegment \<Rightarrow> nat \<Rightarrow> rat" where
  "roundingSlack orig k =
     (\<bar>start orig\<bar> + \<bar>seg_end orig\<bar>) / 2 ^ 50 + of_nat (k + 2) / 2 ^ 1073"

text \<open>
  What the counter holds for a word after the words \<open>ws\<close> have been counted, and the
  entries with a count of two or more in the order of the sort, before the cut at thirty.
\<close>

definition counted :: "string list \<Rightarrow> string \<Rightarrow> kw_value option" where
  "counted ws w =
     (if w \<in> set ws \<and> w \<noteq> ''__proto__''
      then Some (if w = ''constructor'' then Text else Count (count_list ws w))
      else None)"

definition ranked :: "CombinedSegment list \<Rightarrow> (string \<times> nat) list" where
  "ranked segs = sort_key (\<lambda>e. - int (snd e)) (atLeastTwo (countWords (keywordWords segs)))"

section \<open>Concrete inputs\<close>





text \<open>Combined segments for the examples: speaker, text, sentiment, start and end.\<close>

definition seg :: "string \<Rightarrow> string \<Rightarrow> string option \<Rightarrow> rat \<Rightarrow> rat \<Rightarrow> CombinedSegment" where
  "seg sp txt sen a b =
     \<lparr>speaker = sp, seg_text = txt, emotion = None, sentiment = sen, start = a, seg_end = b\<rparr>"

text \<open>Ten words in four seconds, which is 150 words per minute.\<close>

definition ex_brisk :: "CombinedSegment list" where
  "ex_brisk = [seg ''Guest-1'' ''we offer a great laptop and you can try it'' None 0 4]"

text \<open>A positive segment followed by a negative one.\<close>

definition ex_swing :: "CombinedSegment list" where
  "ex_swing = [seg ''Guest-1'' ''That sounds great.'' (Some ''positive'') 0 5,
               seg ''Guest-2'' ''This is far too expensive.'' (Some ''negative'') 5 10]"

text \<open>
  A transcript of two segments, both heard from the raw speaker \<open>Guest-1\<close>; the first
  holds a question and its answer. The reply splits segment 0 in two and reassigns
  segment 1, the customer's line, to the customer.
\<close>

definition ex_transcript :: "CombinedSegment list" where
  "ex_transcript = [seg ''Guest-1'' ''What product? It is a laptop.'' None 0 4,
                    seg ''Guest-1'' ''Can I think about it?'' None 4 5]"

definition ex_split :: Split where
  "ex_split = \<lparr>originalIndex = 0,
                segments = [\<lparr>part_speaker = ''Customer'', part_text = ''What product?''\<rparr>,
                            \<lparr>part_speaker = ''Salesperson'', part_text = ''It is a laptop.''\<rparr>]\<rparr>"

definition ex_response :: CorrectionResponse where
  "ex_response = \<lparr>corrections = [\<lparr>corr_index = 1, correctedSpeaker = ''Customer''\<rparr>],
                   splits = [ex_split]\<rparr>"

text \<open>A segment of 29 seconds and a reply that splits it into seven parts.\<close>

definition ex_long :: "CombinedSegment list" where
  "ex_long = [seg ''Guest-1'' ''one two three four five six seven'' None 0 29]"

definition ex_seven :: Split where
  "ex_seven = \<lparr>originalIndex = 0,
                segments = map (\<lambda>w. \<lparr>part_speaker = ''Customer'', part_text = w\<rparr>)
                  [''one'', ''two'', ''three'', ''four'', ''five'', ''six'', ''seven'']\<rparr>"







text \<open>A transcript that names a constructor twice and pricing twice.\<close>

definition ex_contract :: "CombinedSegment list" where
  "ex_contract = [seg ''Guest-1'' ''The constructor agreed on pricing.'' None 0 6,
                  seg ''Guest-2'' ''Which constructor? Pricing is fine.'' None 6 9]"

section \<open>Properties\<close>

subsection \<open>Segment merger\<close>

lemma combine_fields:
  "speaker (combine pool a) = speakerId a" "seg_text (combine pool a) = az_text a"
  "start (combine pool a) = az_start a" "seg_end (combine pool a) = az_end a"
  by (simp_all add: combine_def)

lemma combine_empty_pool:
  "(combine pool a)\<lparr>emotion := None, sentiment := None\<rparr> = combine [] a"
  by (simp add: combine_def matchingGemini_def)

text \<open>
  Claim C6. Each run of the merge produces exactly one combined segment per transcript
  event, in arrival order, with the event's speaker, text, start and end copied unchanged.
  The annotation pool only decides the emotion and sentiment fields: with these two fields
  blanked, the result is the merge against an empty pool. The merge leaves the event list
  itself alone.
\<close>

theorem mergeSegments_one_per_event:
  "combinedTranscript (mergeSegments s) = combined (azureSegments s) (geminiSegments s) \<and>
   azureSegments (mergeSegments s) = azureSegments s \<and>
   length (combined evs pool) = length evs \<and>
   map speaker (combined evs pool) = map speakerId evs \<and>
   map seg_text (combined evs pool) = map az_text evs \<and>
   map start (combined evs pool) = map az_start evs \<and>
   map seg_end (combined evs pool) = map az_end evs \<and>
   map (\<lambda>c. c\<lparr>emotion := None, sentiment := None\<rparr>) (combined evs pool) = combined evs []"
  by (simp add: mergeSegments_def combined_def combine_fields combine_empty_pool Let_def o_def)





subsection \<open>Per-fragment annotation\<close>

lemma analyzeTextWithGemini_returns:
  "\<exists>s'. analyzeTextWithGemini s txt ts reply = Inr s'"
  by (auto simp: analyzeTextWithGemini_def storeParsed_def Let_def split: sum.splits)







subsection \<open>Engagement score\<close>

lemma js_round_clamped:
  assumes "0 \<le> n" "n \<le> 1"
  shows "20 \<le> js_round (20 + n * 75) \<and> js_round (20 + n * 75) \<le> 95"
proof -
  have "(20::rat) \<le> 20 + n * 75 + 1 / 2" using assms by simp
  then have lo: "20 \<le> \<lfloor>20 + n * 75 + 1 / 2\<rfloor>" by (simp add: le_floor_iff)
  have "20 + n * 75 + 1 / 2 < 96" using assms by simp
  then have "\<lfloor>20 + n * 75 + 1 / 2\<rfloor> < 96" by (simp add: floor_less_iff)
  with lo show ?thesis by (simp add: js_round_def)
qed

lemma normalized_range: "0 \<le> normalized w \<and> normalized w \<le> 1"
  by (simp add: normalized_def)

text \<open>
  Claim C5. For every segment sequence the engagement score lies between 20 and 95 when
  the words-per-minute value is positive, and is exactly 50 when the value is zero.
\<close>

theorem engagement_range:
  "(positive (wordsPerMinute segs) \<longrightarrow> 20 \<le> engagement segs \<and> engagement segs \<le> 95) \<and>
   (wordsPerMinute segs = Finite 0 \<longrightarrow> engagement segs = 50)"
proof (cases "wordsPerMinute segs")
  case (Finite w)
  then show ?thesis
    using js_round_clamped [of "normalized w"] normalized_range [of w]
    by (simp add: engagement_def engagementOf_def positive_def)
next
  case PosInfinity
  then show ?thesis
    using js_round_clamped [of 1] by (simp add: engagement_def engagementOf_def positive_def)
next
  case NaN
  then show ?thesis by (simp add: engagement_def engagementOf_def positive_def)
qed

lemma ex_brisk_wpm: "wordsPerMinute ex_brisk = Finite 150"
  by code_simp

lemma empty_wpm: "wordsPerMinute [] = Finite 0"
  by code_simp

theorem engagement_range_witness:
  "positive (wordsPerMinute ex_brisk) \<and> engagement ex_brisk = 64 \<and>
   20 \<le> engagement ex_brisk \<and> engagement ex_brisk \<le> 95 \<and>
   wordsPerMinute [] = Finite 0 \<and> engagement [] = 50"
proof -
  have p: "positive (wordsPerMinute ex_brisk)" by (simp add: ex_brisk_wpm positive_def)
  have e: "engagement ex_brisk = 64" by code_simp
  from engagement_range [of ex_brisk] engagement_range [of "[]"] p e empty_wpm
  show ?thesis by simp
qed

subsection \<open>Sentiment time series\<close>

lemma graphStep_prefix: "\<exists>ys. points (graphStep i sg st) = points st @ ys"
  by (simp add: graphStep_def Let_def)

lemma graphLoop_prefix: "\<exists>ys. points (graphLoop i segs st) = points st @ ys"
proof (induction segs arbitrary: i st)
  case Nil
  then show ?case by simp
next
  case (Cons sg segs)
  obtain ys where "points (graphStep i sg st) = points st @ ys"
    using graphStep_prefix by blast
  moreover obtain zs where "points (graphLoop (Suc i) segs (graphStep i sg st)) = points (graphStep i sg st) @ zs"
    using Cons.IH by blast
  ultimately show ?case by simp
qed

text \<open>
  The series of the current \<open>generateSentimentGraph\<close> is never empty and starts with the
  anchor, whatever the segments are.
\<close>

lemma generateSentimentGraph_anchor:
  "generateSentimentGraph segs \<noteq> [] \<and> hd (generateSentimentGraph segs) = anchor"
proof -
  obtain ys where "points (graphLoop 0 segs graphInit) = points graphInit @ ys"
    using graphLoop_prefix by blast
  then show ?thesis by (simp add: generateSentimentGraph_def graphInit_def)
qed

text \<open>
  Claim C8 on the earlier \<open>generateSentimentGraph\<close> of \<open>src/hooks/useSalesCoach.tsx\<close>: the
  series of an empty transcript is empty, and the series of a single-segment transcript is
  that segment's own point, not the anchor.
\<close>

theorem generateSentimentGraph_sampled_no_anchor:
  "generateSentimentGraph_sampled [] = [] \<and>
   generateSentimentGraph_sampled [seg ''Guest-1'' ''That sounds great.'' (Some ''positive'') 5 9] =
     [\<lparr>pt_time = ''0:05'', pt_sentiment = 80\<rparr>] \<and>
   \<lparr>pt_time = ''0:05'', pt_sentiment = 80\<rparr> \<noteq> anchor"
  by code_simp

lemma graphLoop_append:
  "graphLoop i (xs @ ys) st = graphLoop (i + length xs) ys (graphLoop i xs st)"
  by (induction xs arbitrary: i st) simp_all

lemma graphStep_sums:
  "cumulativeSentiment (graphStep i sg st) =
     cumulativeSentiment st + sum_list (map (\<lambda>seg. graphScore (sentiment seg)) (bearing [sg]))"
  "segmentCount (graphStep i sg st) = segmentCount st + int (length (bearing [sg]))"
  by (simp_all add: graphStep_def bearing_def Let_def)

lemma bearing_Cons: "bearing (sg # segs) = bearing [sg] @ bearing segs"
  by (simp add: bearing_def)

lemma graphLoop_sums:
  "cumulativeSentiment (graphLoop i segs st) =
     cumulativeSentiment st + sum_list (map (\<lambda>seg. graphScore (sentiment seg)) (bearing segs))"
  "segmentCount (graphLoop i segs st) = segmentCount st + int (length (bearing segs))"
proof (induction segs arbitrary: i st)
  case Nil
  { case 1 show ?case by (simp add: bearing_def) }
  { case 2 show ?case by (simp add: bearing_def) }
next
  case (Cons sg segs)
  { case 1 show ?case
      using Cons.IH(1) [of "Suc i" "graphStep i sg st"]
      by (simp add: graphStep_sums(1) bearing_Cons [of sg segs]) }
  { case 2 show ?case
      using Cons.IH(2) [of "Suc i" "graphStep i sg st"]
      by (simp add: graphStep_sums(2) bearing_Cons [of sg segs]) }
qed

lemma graphStep_one:
  "length (points st) \<ge> 1 \<Longrightarrow>
   length (points (graphStep i sg st)) \<ge> 1 \<and>
   (length (points (graphStep i sg st)) = 1 \<longleftrightarrow> length (points st) = 1 \<and> bearing [sg] = [])"
  by (auto simp: graphStep_def bearing_def Let_def)

lemma graphLoop_one:
  "length (points st) \<ge> 1 \<Longrightarrow>
   (length (points (graphLoop i segs st)) = 1 \<longleftrightarrow> length (points st) = 1 \<and> bearing segs = [])"
proof (induction segs arbitrary: i st)
  case Nil
  then show ?case by (simp add: bearing_def)
next
  case (Cons sg segs)
  from graphStep_one [OF Cons.prems, of i sg]
  have a: "length (points (graphStep i sg st)) \<ge> 1"
    and b: "length (points (graphStep i sg st)) = 1 \<longleftrightarrow> length (points st) = 1 \<and> bearing [sg] = []"
    by blast+
  show ?case
    using Cons.IH [OF a, of "Suc i"] b by (simp add: bearing_Cons [of sg segs])
qed

lemma generateSentimentGraph_length_one:
  "length (generateSentimentGraph segs) = 1 \<longleftrightarrow> bearing segs = []"
  using graphLoop_one [of graphInit 0 segs]
  by (simp add: generateSentimentGraph_def graphInit_def)

text \<open>
  Claim C4, as the code has it. The series of the empty sequence is the anchor alone.
  Appending one segment appends at most one point, the rounded running average over the
  sentiment-bearing segments at the segment's formatted start, and it does so exactly when
  the segment bears a sentiment and either no earlier segment did, or the segment's index in
  the whole sequence is even and the rounded running average differs from the last emitted
  point by more than 10.
\<close>

theorem generateSentimentGraph_snoc:
  "generateSentimentGraph [] = [anchor] \<and>
   generateSentimentGraph (segs @ [sg]) =
     (if truthy (sentiment sg) \<and>
         (bearing segs = [] \<or>
          (even (length segs) \<and>
           10 < \<bar>runningAverage (segs @ [sg]) - pt_sentiment (last (generateSentimentGraph segs))\<bar>))
      then generateSentimentGraph segs @
             [\<lparr>pt_time = formatTime (start sg), pt_sentiment = runningAverage (segs @ [sg])\<rparr>]
      else generateSentimentGraph segs)"
proof -
  let ?st = "graphLoop 0 segs graphInit"
  have one: "length (points ?st) = 1 \<longleftrightarrow> bearing segs = []"
    using generateSentimentGraph_length_one [of segs] by (simp add: generateSentimentGraph_def)
  have cum: "cumulativeSentiment ?st = sum_list (map (\<lambda>seg. graphScore (sentiment seg)) (bearing segs))"
    and cnt: "segmentCount ?st = int (length (bearing segs))"
    by (simp_all add: graphLoop_sums graphInit_def)
  have avg: "truthy (sentiment sg) \<Longrightarrow>
    js_round (of_int (cumulativeSentiment ?st + graphScore (sentiment sg)) / of_int (segmentCount ?st + 1))
      = runningAverage (segs @ [sg])"
    by (simp add: cum cnt runningAverage_def bearing_def add.commute)
  have step: "generateSentimentGraph (segs @ [sg]) = points (graphStep (length segs) sg ?st)"
    by (simp add: generateSentimentGraph_def graphLoop_append)
  have first: "generateSentimentGraph [] = [anchor]"
    by (simp add: generateSentimentGraph_def graphInit_def)
  show ?thesis
  proof (cases "truthy (sentiment sg)")
    case False
    then show ?thesis using first step
      by (simp add: graphStep_def generateSentimentGraph_def)
  next
    case True
    show ?thesis
      using first step True avg [OF True] one
      by (auto simp: graphStep_def generateSentimentGraph_def Let_def even_iff_mod_2_eq_zero)
  qed
qed

theorem generateSentimentGraph_snoc_witness:
  "generateSentimentGraph (ex_swing @ [seg ''Guest-2'' ''I do not think so.'' (Some ''negative'') 10 12]) =
     [anchor, \<lparr>pt_time = ''0:00'', pt_sentiment = 80\<rparr>, \<lparr>pt_time = ''0:10'', pt_sentiment = 53\<rparr>]"
proof -
  let ?sg = "seg ''Guest-2'' ''I do not think so.'' (Some ''negative'') 10 12"
  have a: "truthy (sentiment ?sg)" "even (length ex_swing)"
    "runningAverage (ex_swing @ [?sg]) = 53" "formatTime (start ?sg) = ''0:10''"
    "generateSentimentGraph ex_swing = [anchor, \<lparr>pt_time = ''0:00'', pt_sentiment = 80\<rparr>]"
    by code_simp+
  from generateSentimentGraph_snoc [of ex_swing ?sg] a show ?thesis by simp
qed

text \<open>
  Claim C4 as stated fails. In the example the second segment is the second
  sentiment-bearing one, and the running average there (60) differs from the last emitted
  point (80) by more than 10; still no point is emitted for it.
\<close>

theorem sentiment_trigger_counterexample:
  "generateSentimentGraph (take 1 ex_swing) = [anchor, \<lparr>pt_time = ''0:00'', pt_sentiment = 80\<rparr>] \<and>
   length (bearing ex_swing) = 2 \<and>
   runningAverage ex_swing = 60 \<and>
   10 < \<bar>runningAverage ex_swing - pt_sentiment (last (generateSentimentGraph (take 1 ex_swing)))\<bar> \<and>
   generateSentimentGraph ex_swing = generateSentimentGraph (take 1 ex_swing)"
  by code_simp

subsection \<open>Rounding to doubles\<close>

text \<open>
  The rounding error of one operation is at most the exact result divided by \<open>2 ^ 53\<close>, or
  \<open>1 / 2 ^ 1075\<close> in the subnormal range; \<open>boundary_error\<close> adds up the four roundings
  behind one boundary of a split.
\<close>

lemma roundHalfEven_error: "\<bar>of_int (roundHalfEven q) - q\<bar> \<le> (1 / 2 :: rat)"
proof -
  have "of_int \<lfloor>q\<rfloor> \<le> q" "q < of_int \<lfloor>q\<rfloor> + 1" by linarith+
  then show ?thesis
    by (auto simp: roundHalfEven_def Let_def)
qed

lemma ulp_pos: "0 < ulp x"
  by (simp add: ulp_def)

lemma expo_le:
  assumes "x \<noteq> 0"
  shows "power_int 2 (expo x) \<le> \<bar>x\<bar>"
proof -
  obtain p q where pq: "quotient_of x = (p, q)" by (cases "quotient_of x")
  then have q: "0 < q" and x: "x = of_int p / of_int q"
    using quotient_of_denom_pos quotient_of_div by blast+
  let ?a = "\<bar>p\<bar>"
  have a: "0 < ?a" using assms x by auto
  have ax: "\<bar>x\<bar> = of_int ?a / of_int q" using q by (simp add: x)
  let ?e0 = "bitlen ?a - bitlen q"
  show ?thesis
  proof (cases "power_int 2 ?e0 \<le> \<bar>x\<bar>")
    case True
    then show ?thesis by (simp add: expo_def pq Let_def)
  next
    case False
    have ba: "1 \<le> bitlen ?a" and bq: "1 \<le> bitlen q"
      using a q by (simp_all add: bitlen_alt_def)
    have lo: "(2::int) ^ nat (bitlen ?a - 1) \<le> ?a" using bitlen_bounds [OF a] by simp
    have hi: "q < 2 ^ nat (bitlen q)" using bitlen_bounds [OF q] by simp
    have lo': "(2::rat) ^ nat (bitlen ?a - 1) \<le> of_int ?a"
      using lo by (metis of_int_le_iff of_int_numeral of_int_power)
    have hi': "(of_int q :: rat) \<le> 2 ^ nat (bitlen q)"
      using hi by (metis less_imp_le of_int_le_iff of_int_numeral of_int_power)
    have e: "?e0 - 1 = (bitlen ?a - 1) - bitlen q" by simp
    have "power_int (2::rat) (?e0 - 1) = power_int 2 (bitlen ?a - 1) / power_int 2 (bitlen q)"
      unfolding e by (rule power_int_diff) simp
    also have "\<dots> = 2 ^ nat (bitlen ?a - 1) / 2 ^ nat (bitlen q)"
      using ba bq by (simp add: power_int_def)
    also have "\<dots> \<le> of_int ?a / of_int q"
      using lo' hi' q by (intro frac_le) simp_all
    finally show ?thesis
      using False by (simp add: expo_def pq Let_def ax)
  qed
qed

lemma ulp_le:
  assumes "x \<noteq> 0"
  shows "ulp x \<le> \<bar>x\<bar> / 2 ^ 52 + 1 / 2 ^ 1074"
proof (cases "- 1074 \<le> expo x - 52")
  case True
  then have "max (expo x - 52) (- 1074) = expo x - 52" by linarith
  then have "ulp x = power_int 2 (expo x - 52)" by (simp only: ulp_def)
  also have "\<dots> = power_int 2 (expo x) / power_int 2 52"
    using power_int_diff [of "2::rat" "expo x" 52] by simp
  also have "\<dots> = power_int 2 (expo x) / 2 ^ 52"
    by (simp add: power_int_def)
  also have "\<dots> \<le> \<bar>x\<bar> / 2 ^ 52"
    using expo_le [OF assms] by (simp add: divide_right_mono)
  finally show ?thesis by simp
next
  case False
  then have "max (expo x - 52) (- 1074) = - 1074" by linarith
  then have "ulp x = power_int 2 (- 1074)" by (simp only: ulp_def)
  also have "\<dots> = 1 / 2 ^ 1074"
    by (simp add: power_int_def inverse_eq_divide power_one_over)
  finally have "ulp x = 1 / 2 ^ 1074" .
  then show ?thesis by simp
qed

lemma fl_error: "\<bar>fl x - x\<bar> \<le> \<bar>x\<bar> / 2 ^ 53 + 1 / 2 ^ 1075"
proof (cases "x = 0")
  case True
  then show ?thesis by (simp add: fl_def)
next
  case False
  let ?u = "ulp x"
  let ?n = "roundHalfEven (x / ?u)"
  have u: "0 < ?u" by (rule ulp_pos)
  have "fl x - x = (of_int ?n - x / ?u) * ?u"
    using False u by (simp add: fl_def field_simps)
  then have "\<bar>fl x - x\<bar> = \<bar>of_int ?n - x / ?u\<bar> * ?u"
    using u by (simp add: abs_mult)
  also have "\<dots> \<le> (1 / 2) * ?u"
    using roundHalfEven_error [of "x / ?u"] u by (intro mult_right_mono) simp_all
  also have "\<dots> \<le> (1 / 2) * (\<bar>x\<bar> / 2 ^ 52 + 1 / 2 ^ 1074)"
    using ulp_le [OF False] by simp
  also have "\<dots> = \<bar>x\<bar> / 2 ^ 53 + 1 / 2 ^ 1075" by simp
  finally show ?thesis .
qed

lemma boundary_error:
  fixes s e :: rat and k j :: nat
  assumes k: "0 < k" and j: "j \<le> k"
  shows "\<bar>fl (s + fl (of_nat j * fl (fl (e - s) / of_nat k))) - (s + of_nat j * ((e - s) / of_nat k))\<bar>
           \<le> (\<bar>s\<bar> + \<bar>e\<bar>) / 2 ^ 50 + of_nat (k + 2) / 2 ^ 1073"
proof -
  define \<eta> :: rat where "\<eta> = 1 / 2 ^ 1075"
  define K :: rat where "K = of_nat k * \<eta>"
  define A where "A = \<bar>s\<bar> + \<bar>e\<bar>"
  define D where "D = e - s"
  define d where "d = fl D"
  define t where "t = fl (d / of_nat k)"
  define X where "X = of_nat j * t"
  define Y where "Y = of_nat j * (d / of_nat k)"
  define Z where "Z = of_nat j * (D / of_nat k)"
  define p where "p = fl X"
  define b where "b = fl (s + p)"
  define q where "q = \<bar>s + p\<bar>"
  have eta: "0 \<le> \<eta>" by (simp add: \<eta>_def)
  have K: "\<eta> \<le> K"
  proof -
    have "1 * \<eta> \<le> of_nat k * \<eta>" using k eta by (intro mult_right_mono) simp_all
    then show ?thesis by (simp add: K_def)
  qed
  have kpos: "(0::rat) < of_nat k" using k by simp
  have jk: "(of_nat j :: rat) \<le> of_nat k" using j by simp
  have DA: "\<bar>D\<bar> \<le> A" by (simp add: D_def A_def)
  have A0: "0 \<le> A" by (simp add: A_def)
  have sA: "\<bar>s\<bar> \<le> A" by (simp add: A_def)
  have h1: "\<bar>d - D\<bar> \<le> \<bar>D\<bar> / 9007199254740992 + \<eta>"
    using fl_error [of D] unfolding d_def \<eta>_def by simp
  have h2: "\<bar>t - d / of_nat k\<bar> \<le> \<bar>d / of_nat k\<bar> / 9007199254740992 + \<eta>"
    using fl_error [of "d / of_nat k"] unfolding t_def \<eta>_def by simp
  have h3: "\<bar>p - X\<bar> \<le> \<bar>X\<bar> / 9007199254740992 + \<eta>"
    using fl_error [of X] unfolding p_def \<eta>_def by simp
  have h4: "\<bar>b - (s + p)\<bar> \<le> q / 9007199254740992 + \<eta>"
    using fl_error [of "s + p"] unfolding b_def \<eta>_def q_def by simp
  have c1: "\<bar>d - D\<bar> \<le> A / 9007199254740992 + \<eta>" using h1 DA by simp
  have c2: "\<bar>d\<bar> \<le> A + A / 9007199254740992 + \<eta>" using c1 DA by linarith
  have "X - Y = of_nat j * (t - d / of_nat k)"
    by (simp add: X_def Y_def algebra_simps)
  then have "\<bar>X - Y\<bar> = of_nat j * \<bar>t - d / of_nat k\<bar>"
    by (simp add: abs_mult)
  also have "\<dots> \<le> of_nat k * \<bar>t - d / of_nat k\<bar>"
    using jk by (intro mult_right_mono) simp_all
  also have "\<dots> \<le> of_nat k * (\<bar>d / of_nat k\<bar> / 9007199254740992 + \<eta>)"
    using h2 kpos by (intro mult_left_mono) simp_all
  also have "\<dots> = \<bar>d\<bar> / 9007199254740992 + K"
    using kpos by (simp add: K_def field_simps)
  finally have c3: "\<bar>X - Y\<bar> \<le> \<bar>d\<bar> / 9007199254740992 + K" .
  have frac: "of_nat j / (of_nat k :: rat) \<le> 1" "0 \<le> of_nat j / (of_nat k :: rat)"
    using jk kpos by simp_all
  have "Y - Z = (of_nat j / of_nat k) * (d - D)"
    by (simp add: Y_def Z_def algebra_simps diff_divide_distrib)
  then have "\<bar>Y - Z\<bar> = (of_nat j / of_nat k) * \<bar>d - D\<bar>"
    using frac(2) by (simp only: abs_mult abs_of_nonneg)
  also have "\<dots> \<le> 1 * \<bar>d - D\<bar>"
    using frac by (intro mult_right_mono) simp_all
  finally have c4: "\<bar>Y - Z\<bar> \<le> \<bar>d - D\<bar>" by simp
  have "Z = (of_nat j / of_nat k) * D"
    by (simp add: Z_def)
  then have "\<bar>Z\<bar> = (of_nat j / of_nat k) * \<bar>D\<bar>"
    using frac(2) by (simp only: abs_mult abs_of_nonneg)
  also have "\<dots> \<le> 1 * \<bar>D\<bar>"
    using frac by (intro mult_right_mono) simp_all
  finally have c5: "\<bar>Z\<bar> \<le> A" using DA by simp
  have c6: "\<bar>X - Z\<bar> \<le> 3 * A / 9007199254740992 + 2 * K + 2 * \<eta>"
    using c1 c2 c3 c4 eta K A0 by linarith
  have c7: "\<bar>X\<bar> \<le> 2 * A + 2 * K + 2 * \<eta>"
    using c5 c6 by linarith
  have c8: "\<bar>p - Z\<bar> \<le> 5 * A / 9007199254740992 + 3 * K + 4 * \<eta>"
    using h3 c6 c7 eta K A0 by linarith
  have c9: "\<bar>p\<bar> \<le> 2 * A + 3 * K + 4 * \<eta>"
    using c5 c8 by linarith
  have sp: "q \<le> 3 * A + 3 * K + 4 * \<eta>"
    unfolding q_def using sA c9 by linarith
  have t1: "\<bar>b - (s + p)\<bar> \<le> 3 * A / 9007199254740992 + 3 * K / 9007199254740992 +
      4 * \<eta> / 9007199254740992 + \<eta>"
    using h4 sp by linarith
  have tri: "\<bar>b - (s + Z)\<bar> \<le> \<bar>b - (s + p)\<bar> + \<bar>p - Z\<bar>"
    by linarith
  have c10: "\<bar>b - (s + Z)\<bar> \<le> 8 * A / 9007199254740992 + 4 * K + 6 * \<eta>"
    using t1 tri c8 eta K A0 by linarith
  have e1: "of_nat (k + 2) / 2 ^ 1073 = 4 * K + 8 * \<eta>"
    by (simp add: K_def \<eta>_def field_simps)
  have e2: "A / 2 ^ 50 = 8 * A / 9007199254740992" by simp
  have "\<bar>b - (s + Z)\<bar> \<le> A / 2 ^ 50 + of_nat (k + 2) / 2 ^ 1073"
    unfolding e1 e2 using c10 eta by linarith
  then show ?thesis
    by (simp only: b_def p_def X_def t_def d_def D_def Z_def A_def)
qed

subsection \<open>Speaker correction pass\<close>

lemma map_snd_of_enumerate:
  "map (\<lambda>ip. f (snd ip)) (enumerate n xs) = map f xs"
  by (induction xs arbitrary: n) simp_all

lemma length_newSegments: "length (newSegments orig parts) = length parts"
  by (simp add: newSegments_def)

lemma nth_newSegments:
  "j < length parts \<Longrightarrow>
   newSegments orig parts ! j =
     newSegment orig (fl (fl (seg_end orig - start orig) / of_nat (length parts))) (j, parts ! j)"
  by (simp add: newSegments_def nth_enumerate_eq)

lemma newSegments_boundaries:
  assumes "j < length parts"
  shows "\<bar>start (newSegments orig parts ! j) - idealBoundary orig (length parts) j\<bar>
            \<le> roundingSlack orig (length parts)"
    and "\<bar>seg_end (newSegments orig parts ! j) - idealBoundary orig (length parts) (Suc j)\<bar>
            \<le> roundingSlack orig (length parts)"
proof -
  have k: "0 < length parts" using assms by linarith
  show "\<bar>start (newSegments orig parts ! j) - idealBoundary orig (length parts) j\<bar>
            \<le> roundingSlack orig (length parts)"
    using boundary_error [OF k, of j "start orig" "seg_end orig"] assms
    by (simp add: nth_newSegments newSegment_def idealBoundary_def roundingSlack_def span_def)
  show "\<bar>seg_end (newSegments orig parts ! j) - idealBoundary orig (length parts) (Suc j)\<bar>
            \<le> roundingSlack orig (length parts)"
    using boundary_error [OF k, of "Suc j" "start orig" "seg_end orig"] assms
    by (simp add: nth_newSegments newSegment_def idealBoundary_def roundingSlack_def span_def
        add.commute)
qed

lemma newSegments_contiguous:
  assumes "Suc j < length parts"
  shows "start (newSegments orig parts ! Suc j) = seg_end (newSegments orig parts ! j)"
  using assms by (simp add: nth_newSegments newSegment_def add.commute)

lemma telescope:
  assumes "xs \<noteq> []" and "\<forall>j. Suc j < length xs \<longrightarrow> start (xs ! Suc j) = seg_end (xs ! j)"
  shows "sum_list (map span xs) = seg_end (last xs) - start (hd xs)"
  using assms
proof (induction xs)
  case Nil
  then show ?case by simp
next
  case (Cons x xs)
  show ?case
  proof (cases "xs = []")
    case True
    then show ?thesis by (simp add: span_def)
  next
    case False
    have step: "\<forall>j. Suc j < length xs \<longrightarrow> start (xs ! Suc j) = seg_end (xs ! j)"
      using Cons.prems(2) by auto
    have link: "start (hd xs) = seg_end x"
      using Cons.prems(2) False by (cases xs) (auto dest: spec [of _ 0])
    show ?thesis
      using Cons.IH [OF False step] False link by (simp add: span_def)
  qed
qed


lemma idealBoundary_step:
  "idealBoundary orig k (Suc j) - idealBoundary orig k j = span orig / of_nat k"
  by (simp add: idealBoundary_def algebra_simps add_divide_distrib)

lemma idealBoundary_ends:
  "idealBoundary orig k 0 = start orig" "0 < k \<Longrightarrow> idealBoundary orig k k = seg_end orig"
  by (simp_all add: idealBoundary_def span_def)

text \<open>
  Claim C2, as the code has it. A split that the pass applies addresses a segment of the
  list; the times of the segment are taken to be at most \<open>2 ^ 1000\<close> in magnitude, which
  keeps every intermediate result inside the range of the doubles. The split replaces that
  one segment with \<open>k\<close> new ones (with none, when the reply lists no
  part), whose texts and speakers are those of the parts, in their order. The new segments
  are contiguous: each starts exactly where the one before it ends. Their boundaries are
  computed in double arithmetic, so they are those of the division of the original span
  into \<open>k\<close> equal sub-intervals only up to rounding: each start and end is within
  \<open>roundingSlack\<close> of the exact boundary, each span is within twice that of the \<open>k\<close>-th part
  of the original span, and the sum of the spans, which is the last end minus the first
  start, is within twice that of the original span.
\<close>

theorem applySplit_contiguous_parts:
  assumes "0 \<le> originalIndex sp" and "nat (originalIndex sp) < length segs"
    and "\<bar>start (splitTarget segs sp)\<bar> \<le> 2 ^ 1000"
    and "\<bar>seg_end (splitTarget segs sp)\<bar> \<le> 2 ^ 1000"
  shows "applySplit segs sp =
           Inr (take (nat (originalIndex sp)) segs @ splitParts segs sp @
                drop (Suc (nat (originalIndex sp))) segs) \<and>
         length (splitParts segs sp) = length (segments sp) \<and>
         map seg_text (splitParts segs sp) = map part_text (segments sp) \<and>
         map speaker (splitParts segs sp) = map part_speaker (segments sp) \<and>
         (\<forall>j. Suc j < length (segments sp) \<longrightarrow>
            start (splitParts segs sp ! Suc j) = seg_end (splitParts segs sp ! j)) \<and>
         (\<forall>j < length (segments sp).
            \<bar>start (splitParts segs sp ! j) -
               idealBoundary (splitTarget segs sp) (length (segments sp)) j\<bar>
              \<le> roundingSlack (splitTarget segs sp) (length (segments sp)) \<and>
            \<bar>seg_end (splitParts segs sp ! j) -
               idealBoundary (splitTarget segs sp) (length (segments sp)) (Suc j)\<bar>
              \<le> roundingSlack (splitTarget segs sp) (length (segments sp)) \<and>
            \<bar>span (splitParts segs sp ! j) -
               span (splitTarget segs sp) / of_nat (length (segments sp))\<bar>
              \<le> 2 * roundingSlack (splitTarget segs sp) (length (segments sp))) \<and>
         (segments sp \<noteq> [] \<longrightarrow>
            sum_list (map span (splitParts segs sp)) =
              seg_end (last (splitParts segs sp)) - start (hd (splitParts segs sp)) \<and>
            \<bar>sum_list (map span (splitParts segs sp)) - span (splitTarget segs sp)\<bar>
              \<le> 2 * roundingSlack (splitTarget segs sp) (length (segments sp))) \<and>
         (segments sp = [] \<longrightarrow> splitParts segs sp = [])"
proof -
  let ?T = "splitTarget segs sp"
  let ?parts = "segments sp"
  let ?new = "splitParts segs sp"
  let ?k = "length ?parts"
  let ?\<epsilon> = "roundingSlack ?T ?k"
  have new: "?new = newSegments ?T ?parts" by (simp add: splitParts_def)
  have run: "applySplit segs sp =
      Inr (take (nat (originalIndex sp)) segs @ ?new @ drop (Suc (nat (originalIndex sp))) segs)"
    using assms(1,2) by (simp add: applySplit_def Let_def splitParts_def splitTarget_def)
  have len: "length ?new = ?k" by (simp add: new length_newSegments)
  have texts: "map seg_text ?new = map part_text ?parts"
    by (simp add: new newSegments_def newSegment_def o_def map_snd_of_enumerate)
  have speakers: "map speaker ?new = map part_speaker ?parts"
    by (simp add: new newSegments_def newSegment_def o_def map_snd_of_enumerate)
  have contiguous: "start (?new ! Suc j) = seg_end (?new ! j)" if "Suc j < ?k" for j
    unfolding new using that by (rule newSegments_contiguous)
  have lo: "\<bar>start (?new ! j) - idealBoundary ?T ?k j\<bar> \<le> ?\<epsilon>"
    and hi: "\<bar>seg_end (?new ! j) - idealBoundary ?T ?k (Suc j)\<bar> \<le> ?\<epsilon>" if "j < ?k" for j
    unfolding new using that by (rule newSegments_boundaries)+
  have each: "\<bar>span (?new ! j) - span ?T / of_nat ?k\<bar> \<le> 2 * ?\<epsilon>" if "j < ?k" for j
    using lo [OF that] hi [OF that] idealBoundary_step [of ?T ?k j]
    unfolding span_def by linarith
  have total: "sum_list (map span ?new) = seg_end (last ?new) - start (hd ?new) \<and>
      \<bar>sum_list (map span ?new) - span ?T\<bar> \<le> 2 * ?\<epsilon>" if ne: "?parts \<noteq> []"
  proof -
    have k: "0 < ?k" using ne by simp
    have nne: "?new \<noteq> []" using k len by auto
    have tel: "sum_list (map span ?new) = seg_end (last ?new) - start (hd ?new)"
      using nne contiguous len by (intro telescope) simp_all
    obtain m where m: "?k = Suc m" using k by (cases ?k) auto
    have h: "start (hd ?new) = start (?new ! 0)" by (simp add: hd_conv_nth [OF nne])
    have l: "seg_end (last ?new) = seg_end (?new ! m)"
      using len m by (simp add: last_conv_nth [OF nne])
    have "\<bar>start (?new ! 0) - start ?T\<bar> \<le> ?\<epsilon>"
      using lo [OF k] by (simp add: idealBoundary_ends(1))
    moreover have "\<bar>seg_end (?new ! m) - seg_end ?T\<bar> \<le> ?\<epsilon>"
      using hi [of m] m idealBoundary_ends(2) [OF k, of ?T] by simp
    ultimately have "\<bar>sum_list (map span ?new) - span ?T\<bar> \<le> 2 * ?\<epsilon>"
      unfolding tel h l span_def by linarith
    with tel show ?thesis by blast
  qed
  have none: "?new = []" if "?parts = []"
    using that len by simp
  from run len texts speakers contiguous lo hi each total none show ?thesis by blast
qed

lemma ex_seven_facts:
  "0 \<le> originalIndex ex_seven" "nat (originalIndex ex_seven) < length ex_long"
  "length (segments ex_seven) = 7" "segments ex_seven \<noteq> []"
  "seg_end (splitTarget ex_long ex_seven) = 29" "span (splitTarget ex_long ex_seven) = 29"
  "start (splitTarget ex_long ex_seven) = 0"
  by (simp_all add: ex_seven_def ex_long_def seg_def splitTarget_def span_def)

lemma ex_seven_range:
  "\<bar>start (splitTarget ex_long ex_seven)\<bar> \<le> 2 ^ 1000"
  "\<bar>seg_end (splitTarget ex_long ex_seven)\<bar> \<le> 2 ^ 1000"
  by (simp_all add: ex_seven_facts)

theorem applySplit_contiguous_parts_witness:
  "0 \<le> originalIndex ex_seven \<and> nat (originalIndex ex_seven) < length ex_long \<and>
   start (splitTarget ex_long ex_seven) = 0 \<and> seg_end (splitTarget ex_long ex_seven) = 29 \<and>
   length (splitParts ex_long ex_seven) = 7 \<and>
   start (splitParts ex_long ex_seven ! 1) = seg_end (splitParts ex_long ex_seven ! 0) \<and>
   \<bar>span (splitParts ex_long ex_seven ! 2) - 29 / 7\<bar>
     \<le> 2 * roundingSlack (splitTarget ex_long ex_seven) 7 \<and>
   \<bar>sum_list (map span (splitParts ex_long ex_seven)) - 29\<bar>
     \<le> 2 * roundingSlack (splitTarget ex_long ex_seven) 7"
proof -
  note t = applySplit_contiguous_parts [OF ex_seven_facts(1,2) ex_seven_range]
  have a: "length (splitParts ex_long ex_seven) = 7"
    using t ex_seven_facts(3) by simp
  have b: "start (splitParts ex_long ex_seven ! Suc 0) = seg_end (splitParts ex_long ex_seven ! 0)"
    using t ex_seven_facts(3) by simp
  have c: "\<bar>span (splitParts ex_long ex_seven ! 2) - 29 / 7\<bar>
     \<le> 2 * roundingSlack (splitTarget ex_long ex_seven) 7"
    using t ex_seven_facts(3,6) by simp
  have "segments ex_seven \<noteq> [] \<longrightarrow>
      \<bar>sum_list (map span (splitParts ex_long ex_seven)) - span (splitTarget ex_long ex_seven)\<bar>
        \<le> 2 * roundingSlack (splitTarget ex_long ex_seven) (length (segments ex_seven))"
    using t by blast
  then have d: "\<bar>sum_list (map span (splitParts ex_long ex_seven)) - 29\<bar>
     \<le> 2 * roundingSlack (splitTarget ex_long ex_seven) 7"
    using ex_seven_facts(4) by (simp only: ex_seven_facts(3,6) simp_thms)
  from a b c d ex_seven_facts(1,2,5,7) show ?thesis by simp
qed

lemma ex_seven_parts:
  "splitParts ex_long ex_seven =
     [seg ''Customer'' ''one'' None 0 (4664442471205157 / 1125899906842624),
      seg ''Customer'' ''two'' None (4664442471205157 / 1125899906842624) (4664442471205157 / 562949953421312),
      seg ''Customer'' ''three'' None (4664442471205157 / 562949953421312) (874582963350967 / 70368744177664),
      seg ''Customer'' ''four'' None (874582963350967 / 70368744177664) (4664442471205157 / 281474976710656),
      seg ''Customer'' ''five'' None (4664442471205157 / 281474976710656) (2915276544503223 / 140737488355328),
      seg ''Customer'' ''six'' None (2915276544503223 / 140737488355328) (874582963350967 / 35184372088832),
      seg ''Customer'' ''seven'' None (874582963350967 / 35184372088832) (8162774324609025 / 281474976710656)]"
  by code_simp

text \<open>
  Claim C2 as stated fails. Splitting the segment from second 0 to second 29 into seven
  parts gives a last end of 29.000000000000004, a sum of spans of the same value instead
  of 29, and spans that are not all equal.
\<close>

theorem applySplit_rounding_counterexample:
  "applySplit ex_long ex_seven = Inr (splitParts ex_long ex_seven) \<and>
   length (segments ex_seven) = 7 \<and>
   span (splitTarget ex_long ex_seven) = 29 \<and>
   seg_end (splitTarget ex_long ex_seven) = 29 \<and>
   seg_end (last (splitParts ex_long ex_seven)) = 8162774324609025 / 281474976710656 \<and>
   sum_list (map span (splitParts ex_long ex_seven)) = 8162774324609025 / 281474976710656 \<and>
   span (splitParts ex_long ex_seven ! 0) = 4664442471205157 / 1125899906842624 \<and>
   span (splitParts ex_long ex_seven ! 2) = 2332221235602579 / 562949953421312"
proof -
  have "applySplit ex_long ex_seven = Inr (splitParts ex_long ex_seven)"
    by (simp add: applySplit_def splitParts_def splitTarget_def ex_long_def ex_seven_def)
  then show ?thesis
    by (simp add: ex_seven_facts) (simp add: ex_seven_parts seg_def span_def)
qed

text \<open>The splits are taken in descending order of their index.\<close>

lemma sortSplits_descending:
  "sorted (map (\<lambda>sp. - originalIndex sp) (sortSplits sps)) \<and>
   set (sortSplits sps) = set sps \<and> length (sortSplits sps) = length sps"
  by (simp add: sortSplits_def)

text \<open>
  Claim C3 at the example reply. The split of segment 0 is applied first; the reassignment
  with index 1 then goes to position 1 of the list after the split, which is the second part
  of the split (\<open>It is a laptop.\<close>, which the split gave to the salesperson), not to the
  segment that had index 1 in the transcript sent for correction
  (\<open>Can I think about it?\<close>), which keeps its raw label until the fallback classifies it.
\<close>

theorem correction_lands_on_split_part:
  "correctSpeakerIdentification ex_transcript (Inr (Inr ex_response)) =
     [seg ''Customer'' ''What product?'' None 0 2,
      seg ''Customer'' ''It is a laptop.'' None 2 4,
      seg ''Salesperson'' ''Can I think about it?'' None 4 5]"
  by code_simp

lemma applyCorrection_frame:
  "seg_text (applyCorrection cs ip) = seg_text (snd ip)"
  "emotion (applyCorrection cs ip) = emotion (snd ip)"
  "sentiment (applyCorrection cs ip) = sentiment (snd ip)"
  "start (applyCorrection cs ip) = start (snd ip)"
  "seg_end (applyCorrection cs ip) = seg_end (snd ip)"
  by (simp_all add: applyCorrection_def split: option.splits)

lemma map_applyCorrections:
  assumes "\<And>ip. f (applyCorrection cs ip) = f (snd ip)"
  shows "map f (applyCorrections cs segs) = map f segs"
proof -
  have "map f (applyCorrections cs segs) = map (\<lambda>ip. f (snd ip)) (enumerate 0 segs)"
    by (simp add: applyCorrections_def assms o_def)
  also have "\<dots> = map f segs" by (rule map_snd_of_enumerate)
  finally show ?thesis .
qed

text \<open>
  Claim C10. The reassignment step keeps the number and order of the segments, and the
  text, emotion, sentiment, start and end of every segment; only speakers can change.
\<close>

theorem applyCorrections_speaker_only:
  "length (applyCorrections cs segs) = length segs \<and>
   map seg_text (applyCorrections cs segs) = map seg_text segs \<and>
   map emotion (applyCorrections cs segs) = map emotion segs \<and>
   map sentiment (applyCorrections cs segs) = map sentiment segs \<and>
   map start (applyCorrections cs segs) = map start segs \<and>
   map seg_end (applyCorrections cs segs) = map seg_end segs"
  by (simp add: map_applyCorrections applyCorrection_frame) (simp add: applyCorrections_def)

subsection \<open>Keyword extraction\<close>

lemma ex_contract_tokens:
  "tokens ex_contract = [''the'', ''constructor'', ''agreed'', ''on'', ''pricing'',
      ''which'', ''constructor'', ''pricing'', ''is'', ''fine'', []]"
  by code_simp

lemma ex_contract_words:
  "keywordWords ex_contract =
     [''constructor'', ''agreed'', ''pricing'', ''which'', ''constructor'', ''pricing'', ''fine'']"
  unfolding keywordWords_def ex_contract_tokens by code_simp

lemma ex_contract_keywords: "extractKeywords ex_contract = [(''pricing'', 2)]"
  unfolding extractKeywords_def ex_contract_words by code_simp

lemma keep_constructor: "keep ''constructor''"
  by code_simp

text \<open>
  Claim C9 at the example transcript. The token \<open>constructor\<close> is no stop word, has more
  than one character, is not numeric and occurs twice, as often as \<open>pricing\<close>; the
  keyword map holds \<open>pricing\<close> alone. The read \<open>keywords['constructor']\<close> of the fresh
  counter finds the inherited \<open>Object.prototype.constructor\<close>, so the stored value is a
  string and the test \<open>count >= 2\<close> fails on it.
\<close>

theorem extractKeywords_drops_constructor:
  "keep ''constructor'' \<and>
   count_list (tokens ex_contract) ''constructor'' = 2 \<and>
   count_list (tokens ex_contract) ''pricing'' = 2 \<and>
   extractKeywords ex_contract = [(''pricing'', 2)]"
  by (simp add: keep_constructor ex_contract_tokens ex_contract_keywords)

lemma countWords_snoc: "countWords (ws @ [w]) = countWord (countWords ws) w"
  by (simp add: countWords_def)

lemma countWords_inv:
  "distinct (map fst (countWords ws)) \<and> map_of (countWords ws) = counted ws"
proof (induction ws rule: rev_induct)
  case Nil
  show ?case by (auto simp: countWords_def counted_def)
next
  case (snoc w ws)
  then have d: "distinct (map fst (countWords ws))" and m: "map_of (countWords ws) = counted ws"
    by blast+
  have d': "distinct (map fst (countWords (ws @ [w])))"
    using d by (simp add: countWords_snoc countWord_def distinct_update)
  have "map_of (countWords (ws @ [w])) v = counted (ws @ [w]) v" for v
    unfolding countWords_snoc countWord_def
    by (auto simp: update_conv' m counted_def count_list_0_iff split: kw_value.splits option.splits)
  with d' show ?case by blast
qed

lemma atLeastTwo_set:
  "(w, n) \<in> set (atLeastTwo kws) \<longleftrightarrow> (w, Count n) \<in> set kws \<and> 2 \<le> n"
  by (induction kws rule: atLeastTwo.induct) auto

lemma atLeastTwo_fst: "fst ` set (atLeastTwo kws) \<subseteq> fst ` set kws"
  using atLeastTwo_set by force

lemma atLeastTwo_distinct: "distinct (map fst kws) \<Longrightarrow> distinct (map fst (atLeastTwo kws))"
proof (induction kws rule: atLeastTwo.induct)
  case 1
  then show ?case by simp
next
  case (2 word n rest)
  then show ?case using atLeastTwo_fst [of rest] by auto
next
  case (3 word rest)
  then show ?case by simp
qed


lemma count_list_filter:
  "count_list (filter P xs) x = (if P x then count_list xs x else 0)"
  by (induction xs) auto

lemma countWords_Count:
  "(w, Count n) \<in> set (countWords ws) \<longleftrightarrow>
     w \<in> set ws \<and> w \<noteq> ''__proto__'' \<and> w \<noteq> ''constructor'' \<and> n = count_list ws w"
proof -
  have d: "distinct (map fst (countWords ws))" and m: "map_of (countWords ws) = counted ws"
    using countWords_inv [of ws] by blast+
  have "(w, Count n) \<in> set (countWords ws) \<longleftrightarrow> counted ws w = Some (Count n)"
    using map_of_eq_Some_iff [OF d, of w "Count n"] m by simp
  also have "\<dots> \<longleftrightarrow> w \<in> set ws \<and> w \<noteq> ''__proto__'' \<and> w \<noteq> ''constructor'' \<and> n = count_list ws w"
    by (auto simp: counted_def)
  finally show ?thesis .
qed

lemma keywordWords_count:
  "w \<in> set (keywordWords segs) \<longleftrightarrow> w \<in> set (tokens segs) \<and> keep w"
  "keep w \<Longrightarrow> count_list (keywordWords segs) w = count_list (tokens segs) w"
  by (simp_all add: keywordWords_def count_list_filter)

lemma extractKeywords_ranked: "extractKeywords segs = take 30 (ranked segs)"
  by (simp add: extractKeywords_def sortedKeywords_def ranked_def)

lemma ranked_set:
  "(w, n) \<in> set (ranked segs) \<longleftrightarrow>
     w \<in> set (tokens segs) \<and> keep w \<and> w \<noteq> ''__proto__'' \<and> w \<noteq> ''constructor'' \<and>
     n = count_list (tokens segs) w \<and> 2 \<le> n"
  by (auto simp: ranked_def atLeastTwo_set countWords_Count keywordWords_count)

lemma ranked_distinct: "distinct (map fst (ranked segs))"
proof -
  have "distinct (map fst (atLeastTwo (countWords (keywordWords segs))))"
    using countWords_inv atLeastTwo_distinct by blast
  then show ?thesis
    by (simp add: ranked_def distinct_map)
qed

lemma ranked_sorted: "sorted (map (\<lambda>e. - int (snd e)) (ranked segs))"
  by (simp add: ranked_def)

text \<open>
  What holds of the keyword map on every input. Each entry is a token of the lower-cased,
  punctuation-stripped transcript that has two characters or more, is no stop word and is
  not purely numeric; its value is the token's frequency, which is two or more. There are
  at most thirty entries, with distinct keys, in descending order of frequency. A token
  that qualifies and is left out has a frequency no higher than any entry's, and then the
  map is full; this last part does not cover the tokens \<open>constructor\<close> and \<open>__proto__\<close>.
\<close>

lemma extractKeywords_sound:
  assumes "(w, n) \<in> set (extractKeywords segs)"
  shows "2 \<le> length w \<and> w \<notin> set stopWords \<and> \<not> isNumeric w \<and>
         n = count_list (tokens segs) w \<and> 2 \<le> n"
proof -
  from assms have "(w, n) \<in> set (ranked segs)"
    unfolding extractKeywords_ranked by (rule in_set_takeD)
  then show ?thesis
    by (simp add: ranked_set keep_def)
qed

lemma extractKeywords_size:
  "length (extractKeywords segs) \<le> 30 \<and> distinct (map fst (extractKeywords segs))"
  using ranked_distinct [of segs]
  by (simp add: extractKeywords_ranked take_map [symmetric])

lemma extractKeywords_descending:
  "sorted (map (\<lambda>e. - int (snd e)) (extractKeywords segs))"
  using ranked_sorted [of segs]
  by (simp add: extractKeywords_ranked take_map [symmetric])

lemma extractKeywords_top:
  assumes "w \<in> set (tokens segs)" and "keep w" and "2 \<le> count_list (tokens segs) w"
    and "w \<noteq> ''constructor''" and "w \<noteq> ''__proto__''"
    and "w \<notin> fst ` set (extractKeywords segs)"
  shows "length (extractKeywords segs) = 30 \<and>
         (\<forall>e \<in> set (extractKeywords segs). count_list (tokens segs) w \<le> snd e)"
proof -
  let ?xs = "ranked segs"
  let ?c = "count_list (tokens segs) w"
  have "(w, ?c) \<in> set ?xs" using assms(1-5) by (simp add: ranked_set)
  then obtain i where i: "i < length ?xs" "?xs ! i = (w, ?c)"
    by (auto simp: in_set_conv_nth)
  have i30: "30 \<le> i"
  proof (rule ccontr)
    assume "\<not> 30 \<le> i"
    then have "take 30 ?xs ! i = (w, ?c)" "i < length (take 30 ?xs)" using i by simp_all
    then have "(w, ?c) \<in> set (take 30 ?xs)" by (metis nth_mem)
    then show False using assms(6) by (force simp: extractKeywords_ranked)
  qed
  have len: "length (extractKeywords segs) = 30"
    using i(1) i30 by (simp add: extractKeywords_ranked)
  have "?c \<le> snd e" if "e \<in> set (extractKeywords segs)" for e
  proof -
    from that obtain j where j: "j < 30" "j < length ?xs" "?xs ! j = e"
      by (auto simp: extractKeywords_ranked in_set_conv_nth)
    have "map (\<lambda>e. - int (snd e)) ?xs ! j \<le> map (\<lambda>e. - int (snd e)) ?xs ! i"
      using ranked_sorted [of segs] j(1) i(1) i30 by (intro sorted_nth_mono) simp_all
    then show ?thesis using i j by simp
  qed
  with len show ?thesis by blast
qed

end
